theory Spec2Isabelle
  imports Main "HOL-Library.Monad_Syntax"
begin

section \<open>Characters and the character-handling functions of \<open><cctype>\<close>\<close>

text \<open>
  The program stores text in \<open>std::string\<close>, a sequence of \<open>char\<close>, modelled as
  \<open>string\<close> (a list of 8-bit characters). It passes each \<open>char\<close> to \<open>toupper\<close>,
  \<open>tolower\<close> and \<open>isspace\<close>, which take and return \<open>int\<close>, and assigns the result
  back to the \<open>char\<close>.

  Whether plain \<open>char\<close> is signed is implementation-defined, so every function that
  converts a \<open>char\<close> to \<open>int\<close> takes the flag \<open>char_signed\<close>: with a signed
  \<open>char\<close> the bytes 128..255 are the values -128..-1.
\<close>

definition char_to_int :: "bool \<Rightarrow> char \<Rightarrow> int" where
  "char_to_int char_signed c =
     (if char_signed \<and> 128 \<le> (of_char c :: nat)
      then int (of_char c) - 256 else int (of_char c))"

text \<open>Assigning an \<open>int\<close> to a \<open>char\<close> keeps the value modulo \<open>2 ^ 8\<close>.\<close>

definition int_to_char :: "int \<Rightarrow> char" where
  "int_to_char i = char_of (nat (i mod 256))"

definition EOF :: int where
  "EOF = - 1"

text \<open>
  The functions of \<open><cctype>\<close> take an \<open>int\<close>. ISO C fixes their result for
  \<open>EOF\<close> and for the values of \<open>unsigned char\<close>, 0..255; the program never calls
  \<open>setlocale\<close>, so the "C" locale is in force: the white-space characters are space,
  horizontal tab, line feed, vertical tab, form feed and carriage return (32 and 9..13),
  the lowercase letters are \<open>a\<close>..\<open>z\<close> (97..122) and the uppercase letters
  \<open>A\<close>..\<open>Z\<close> (65..90).

  The program passes a plain \<open>char\<close>, so with a signed \<open>char\<close> the functions also
  receive the values -128..-2. The C library the program runs against (the GNU C
  library) keeps its tables indexed from -128 to 255 for this case: for an argument in
  -128..-2, \<open>isspace\<close> is false and \<open>toupper\<close> and \<open>tolower\<close> return the same
  byte as a value in 128..254 (\<open>toupper(-23)\<close> is 233). Outside -128..255 the tables
  end and the model has no result (\<open>None\<close>).
\<close>

definition ctype_domain :: "int \<Rightarrow> bool" where
  "ctype_domain i \<longleftrightarrow> - 128 \<le> i \<and> i \<le> 255"

definition isspace :: "int \<Rightarrow> bool option" where
  "isspace i = (if ctype_domain i then Some (i = 32 \<or> (9 \<le> i \<and> i \<le> 13)) else None)"

definition toupper :: "int \<Rightarrow> int option" where
  "toupper i =
     (if ctype_domain i
      then Some (if 97 \<le> i \<and> i \<le> 122 then i - 32 else if i < EOF then i + 256 else i)
      else None)"

definition tolower :: "int \<Rightarrow> int option" where
  "tolower i =
     (if ctype_domain i
      then Some (if 65 \<le> i \<and> i \<le> 90 then i + 32 else if i < EOF then i + 256 else i)
      else None)"

section \<open>The concrete strategies\<close>

text \<open>
  The three classes derived from \<open>ITextFormatter\<close> have no data members; an object of
  the interface type is the tag of its class, and the virtual call is a case
  distinction on the tag.
\<close>

datatype ITextFormatter = UpperCaseFormatter | LowerCaseFormatter | TitleCaseFormatter

text \<open>
  \<open>UpperCaseFormatter::format\<close>: copy the text, then replace each character, from left
  to right, by \<open>toupper\<close> of it.
\<close>

fun UpperCaseFormatter_format :: "bool \<Rightarrow> string \<Rightarrow> string option" where
  "UpperCaseFormatter_format char_signed [] = Some []"
| "UpperCaseFormatter_format char_signed (c # cs) = do {
     u \<leftarrow> toupper (char_to_int char_signed c);
     result \<leftarrow> UpperCaseFormatter_format char_signed cs;
     Some (int_to_char u # result)
   }"

text \<open>\<open>LowerCaseFormatter::format\<close>: the same loop with \<open>tolower\<close>.\<close>

fun LowerCaseFormatter_format :: "bool \<Rightarrow> string \<Rightarrow> string option" where
  "LowerCaseFormatter_format char_signed [] = Some []"
| "LowerCaseFormatter_format char_signed (c # cs) = do {
     l \<leftarrow> tolower (char_to_int char_signed c);
     result \<leftarrow> LowerCaseFormatter_format char_signed cs;
     Some (int_to_char l # result)
   }"

text \<open>
  \<open>TitleCaseFormatter::format\<close>: the loop carries the local variable \<open>capitalize\<close>,
  which starts as \<open>true\<close>. A white-space character is left as it is and sets the flag;
  otherwise the character becomes \<open>toupper\<close> of it when the flag is set (and the flag
  is cleared), and \<open>tolower\<close> of it when the flag is clear.
\<close>

fun TitleCaseFormatter_loop :: "bool \<Rightarrow> bool \<Rightarrow> string \<Rightarrow> string option" where
  "TitleCaseFormatter_loop char_signed capitalize [] = Some []"
| "TitleCaseFormatter_loop char_signed capitalize (c # cs) = do {
     sp \<leftarrow> isspace (char_to_int char_signed c);
     if sp then do {
       result \<leftarrow> TitleCaseFormatter_loop char_signed True cs;
       Some (c # result)
     } else if capitalize then do {
       u \<leftarrow> toupper (char_to_int char_signed c);
       result \<leftarrow> TitleCaseFormatter_loop char_signed False cs;
       Some (int_to_char u # result)
     } else do {
       l \<leftarrow> tolower (char_to_int char_signed c);
       result \<leftarrow> TitleCaseFormatter_loop char_signed False cs;
       Some (int_to_char l # result)
     }
   }"

definition TitleCaseFormatter_format :: "bool \<Rightarrow> string \<Rightarrow> string option" where
  "TitleCaseFormatter_format char_signed text = TitleCaseFormatter_loop char_signed True text"

text \<open>The virtual call \<open>formatter->format(text)\<close>.\<close>

fun ITextFormatter_format :: "bool \<Rightarrow> ITextFormatter \<Rightarrow> string \<Rightarrow> string option" where
  "ITextFormatter_format char_signed UpperCaseFormatter text =
     UpperCaseFormatter_format char_signed text"
| "ITextFormatter_format char_signed LowerCaseFormatter text =
     LowerCaseFormatter_format char_signed text"
| "ITextFormatter_format char_signed TitleCaseFormatter text =
     TitleCaseFormatter_format char_signed text"

section \<open>The context class\<close>

text \<open>
  \<open>TextProcessor\<close> has one member, the owning pointer \<open>formatter\<close>, which is null
  (\<open>None\<close>) or holds a strategy. The member function \<open>format\<close> is not declared
  \<open>const\<close>, so its model returns the processor after the call beside the result.
\<close>

record TextProcessor =
  formatter :: "ITextFormatter option"

definition TextProcessor_init :: TextProcessor where
  "TextProcessor_init = \<lparr>formatter = None\<rparr>"

definition setFormatter :: "ITextFormatter option \<Rightarrow> TextProcessor \<Rightarrow> TextProcessor" where
  "setFormatter f processor = processor\<lparr>formatter := f\<rparr>"

definition TextProcessor_format ::
    "bool \<Rightarrow> TextProcessor \<Rightarrow> string \<Rightarrow> string option \<times> TextProcessor" where
  "TextProcessor_format char_signed processor text =
     (case formatter processor of
        Some f \<Rightarrow> (ITextFormatter_format char_signed f text, processor)
      | None \<Rightarrow> (Some text, processor))"

section \<open>The main function\<close>

text \<open>
  \<open>main\<close> reads a line \<open>input\<close> and an integer \<open>choice\<close>; the model takes both as
  arguments and returns what was written to \<open>cout\<close> with the exit code. The
  \<open>switch\<close> is a model of its own, returning the processor and what the chosen branch
  printed.
\<close>

definition newline :: char where
  "newline = CHR 0x0A"

definition main_switch :: "int \<Rightarrow> TextProcessor \<Rightarrow> TextProcessor \<times> string" where
  "main_switch choice processor =
     (if choice = 1 then (setFormatter (Some UpperCaseFormatter) processor, [])
      else if choice = 2 then (setFormatter (Some LowerCaseFormatter) processor, [])
      else if choice = 3 then (setFormatter (Some TitleCaseFormatter) processor, [])
      else (processor, ''Invalid choice. Using default (no formatting).'' @ [newline]))"

definition prompts :: string where
  "prompts = ''Enter a sentence: '' @ [newline] @ ''Choose a format:'' @ [newline]
     @ ''1) Uppercase'' @ [newline] @ ''2) Lowercase'' @ [newline]
     @ ''3) Title Case'' @ [newline] @ ''Enter choice (1-3): ''"

text \<open>
  Everything the run writes to \<open>cout\<close>, given what the \<open>switch\<close> printed and the
  string \<open>processor.format(input)\<close> returned, with the value \<open>main\<close> returns.
\<close>

definition report :: "string \<Rightarrow> string \<Rightarrow> string \<times> int" where
  "report notice result =
     (prompts @ notice @ [newline] @ ''Formatted output:'' @ [newline] @ result @ [newline], 0)"

definition main :: "bool \<Rightarrow> string \<Rightarrow> int \<Rightarrow> (string \<times> int) option" where
  "main char_signed input choice =
     (let (processor, notice) = main_switch choice TextProcessor_init;
          (formatted, processor') = TextProcessor_format char_signed processor input
      in do {
        result \<leftarrow> formatted;
        Some (report notice result)
      })"

section \<open>The vocabulary of the specification\<close>

text \<open>
  The specification speaks of alphabetic characters, of the uppercase and lowercase
  form of a character and of whitespace, with ASCII casing. They are defined here from
  the alphabet itself, not from character codes: the uppercase form of the \<open>n\<close>-th
  lowercase letter is the \<open>n\<close>-th uppercase letter, and a character that is not a
  lowercase letter is its own uppercase form.
\<close>

definition lowercase_letters :: string where
  "lowercase_letters = ''abcdefghijklmnopqrstuvwxyz''"

definition uppercase_letters :: string where
  "uppercase_letters = ''ABCDEFGHIJKLMNOPQRSTUVWXYZ''"

definition whitespace_characters :: string where
  "whitespace_characters = [CHR '' '', CHR 0x09, CHR 0x0A, CHR 0x0B, CHR 0x0C, CHR 0x0D]"

definition is_lowercase :: "char \<Rightarrow> bool" where
  "is_lowercase c \<longleftrightarrow> c \<in> set lowercase_letters"

definition is_uppercase :: "char \<Rightarrow> bool" where
  "is_uppercase c \<longleftrightarrow> c \<in> set uppercase_letters"

definition is_alphabetic :: "char \<Rightarrow> bool" where
  "is_alphabetic c \<longleftrightarrow> is_lowercase c \<or> is_uppercase c"

definition is_whitespace :: "char \<Rightarrow> bool" where
  "is_whitespace c \<longleftrightarrow> c \<in> set whitespace_characters"

definition uppercase_form :: "char \<Rightarrow> char" where
  "uppercase_form c =
     (case map_of (zip lowercase_letters uppercase_letters) c of Some u \<Rightarrow> u | None \<Rightarrow> c)"

definition lowercase_form :: "char \<Rightarrow> char" where
  "lowercase_form c =
     (case map_of (zip uppercase_letters lowercase_letters) c of Some l \<Rightarrow> l | None \<Rightarrow> c)"

text \<open>An ASCII string has every character below 128.\<close>

definition is_ascii :: "char \<Rightarrow> bool" where
  "is_ascii c \<longleftrightarrow> (of_char c :: nat) < 128"

definition ascii_string :: "string \<Rightarrow> bool" where
  "ascii_string s \<longleftrightarrow> list_all is_ascii s"

text \<open>
  TITLE in the words of the specification: one pass from left to right over the
  input with one flag "at word start", true at the beginning. The state of the pass is
  the flag with the output written so far.
\<close>

definition TITLE_step :: "bool \<times> string \<Rightarrow> char \<Rightarrow> bool \<times> string" where
  "TITLE_step st c =
     (case st of (at_word_start, out) \<Rightarrow>
        if is_whitespace c then (True, out @ [c])
        else if at_word_start then (False, out @ [uppercase_form c])
        else (False, out @ [lowercase_form c]))"

definition TITLE_pass :: "string \<Rightarrow> bool \<times> string" where
  "TITLE_pass s = foldl TITLE_step (True, []) s"

definition TITLE_spec :: "string \<Rightarrow> string" where
  "TITLE_spec s = snd (TITLE_pass s)"

text \<open>
  TITLE as the testable property of the specification words it: the first
  \<^emph>\<open>letter\<close> of each maximal run of non-whitespace characters is capitalized, also when
  non-letters precede it in the run, the other letters of the run are lowercased, and
  whitespace is kept. The flag says that the current run has had no letter yet.
\<close>

fun TITLE_first_letter_from :: "bool \<Rightarrow> string \<Rightarrow> string" where
  "TITLE_first_letter_from no_letter_yet [] = []"
| "TITLE_first_letter_from no_letter_yet (c # cs) =
     (if is_whitespace c then c # TITLE_first_letter_from True cs
      else if is_alphabetic c then
        (if no_letter_yet then uppercase_form c else lowercase_form c)
          # TITLE_first_letter_from False cs
      else c # TITLE_first_letter_from no_letter_yet cs)"

definition TITLE_first_letter :: "string \<Rightarrow> string" where
  "TITLE_first_letter s = TITLE_first_letter_from True s"

text \<open>
  Position \<open>i\<close> of \<open>s\<close> is the first character of a maximal run of non-whitespace
  characters: it is not whitespace, and it is the first position or follows whitespace.
\<close>

definition starts_run :: "string \<Rightarrow> nat \<Rightarrow> bool" where
  "starts_run s i \<longleftrightarrow> \<not> is_whitespace (s ! i) \<and> (i = 0 \<or> is_whitespace (s ! (i - 1)))"

text \<open>
  The characters the iteration of \<open>TitleCaseFormatter::format\<close> writes, as a function
  of the flag and the text.
\<close>

fun title_chars :: "bool \<Rightarrow> string \<Rightarrow> string" where
  "title_chars capitalize [] = []"
| "title_chars capitalize (c # cs) =
     (if is_whitespace c then c # title_chars True cs
      else if capitalize then uppercase_form c # title_chars False cs
      else lowercase_form c # title_chars False cs)"

section \<open>Characters: the library calls compute the forms of the specification\<close>

lemma mem_set_iff_code:
  "c \<in> set cs \<longleftrightarrow> (of_char c :: nat) \<in> of_char ` set cs"
  by (simp add: inj_image_mem_iff [OF inj_of_char])

lemma is_whitespace_code:
  "is_whitespace c \<longleftrightarrow> (of_char c :: nat) = 32 \<or> (9 \<le> (of_char c :: nat) \<and> (of_char c :: nat) \<le> 13)"
  unfolding is_whitespace_def whitespace_characters_def mem_set_iff_code [of c]
  by simp arith

lemma is_lowercase_code:
  "is_lowercase c \<longleftrightarrow> 97 \<le> (of_char c :: nat) \<and> (of_char c :: nat) \<le> 122"
  unfolding is_lowercase_def lowercase_letters_def mem_set_iff_code [of c]
  by simp arith

lemma is_uppercase_code:
  "is_uppercase c \<longleftrightarrow> 65 \<le> (of_char c :: nat) \<and> (of_char c :: nat) \<le> 90"
  unfolding is_uppercase_def uppercase_letters_def mem_set_iff_code [of c]
  by simp arith

lemma uppercase_form_lower:
  "is_lowercase c \<Longrightarrow> (of_char (uppercase_form c) :: nat) = of_char c - 32"
  unfolding is_lowercase_def lowercase_letters_def uppercase_form_def uppercase_letters_def
  by auto

lemma uppercase_form_other:
  "\<not> is_lowercase c \<Longrightarrow> uppercase_form c = c"
proof -
  assume "\<not> is_lowercase c"
  then have "map_of (zip lowercase_letters uppercase_letters) c = None"
    by (subst map_of_zip_is_None) (simp_all add: is_lowercase_def lowercase_letters_def uppercase_letters_def)
  then show ?thesis by (simp add: uppercase_form_def)
qed

lemma lowercase_form_upper:
  "is_uppercase c \<Longrightarrow> (of_char (lowercase_form c) :: nat) = of_char c + 32"
  unfolding is_uppercase_def lowercase_letters_def lowercase_form_def uppercase_letters_def
  by auto

lemma lowercase_form_other:
  "\<not> is_uppercase c \<Longrightarrow> lowercase_form c = c"
proof -
  assume "\<not> is_uppercase c"
  then have "map_of (zip uppercase_letters lowercase_letters) c = None"
    by (subst map_of_zip_is_None) (simp_all add: is_uppercase_def lowercase_letters_def uppercase_letters_def)
  then show ?thesis by (simp add: lowercase_form_def)
qed

lemma uppercase_form_code:
  "(of_char (uppercase_form c) :: nat) =
     (if 97 \<le> (of_char c :: nat) \<and> (of_char c :: nat) \<le> 122 then of_char c - 32 else of_char c)"
  using uppercase_form_lower [of c] uppercase_form_other [of c]
  by (simp add: is_lowercase_code)

lemma lowercase_form_code:
  "(of_char (lowercase_form c) :: nat) =
     (if 65 \<le> (of_char c :: nat) \<and> (of_char c :: nat) \<le> 90 then of_char c + 32 else of_char c)"
  using lowercase_form_upper [of c] lowercase_form_other [of c]
  by (simp add: is_uppercase_code)

lemma of_char_le_255: "(of_char c :: nat) \<le> 255"
  using nat_of_char_less_256 [of c] by (simp del: nat_of_char_less_256)

lemma of_char_int_to_char:
  "(of_char (int_to_char i) :: nat) = nat (i mod 256)"
proof -
  have "nat (i mod 256) < 256" by simp
  then show ?thesis by (simp add: int_to_char_def)
qed

lemma ctype_domain_char: "ctype_domain (char_to_int sg c)"
  using of_char_le_255 [of c]
  by (auto simp: ctype_domain_def char_to_int_def)

lemma isspace_char:
  "isspace (char_to_int sg c) = Some (is_whitespace c)"
  using of_char_le_255 [of c]
  by (auto simp: isspace_def is_whitespace_code char_to_int_def ctype_domain_def)

lemma toupper_char:
  "\<exists>u. toupper (char_to_int sg c) = Some u \<and> int_to_char u = uppercase_form c"
proof -
  let ?i = "char_to_int sg c"
  let ?u = "if 97 \<le> ?i \<and> ?i \<le> 122 then ?i - 32 else if ?i < EOF then ?i + 256 else ?i"
  have def: "toupper ?i = Some ?u"
    by (simp add: toupper_def ctype_domain_char)
  have "(of_char (int_to_char ?u) :: nat) = of_char (uppercase_form c)"
    using of_char_le_255 [of c]
    by (auto simp: of_char_int_to_char uppercase_form_code char_to_int_def EOF_def)
  then have "int_to_char ?u = uppercase_form c"
    by (rule of_char_eqI)
  with def show ?thesis by blast
qed

lemma tolower_char:
  "\<exists>l. tolower (char_to_int sg c) = Some l \<and> int_to_char l = lowercase_form c"
proof -
  let ?i = "char_to_int sg c"
  let ?l = "if 65 \<le> ?i \<and> ?i \<le> 90 then ?i + 32 else if ?i < EOF then ?i + 256 else ?i"
  have def: "tolower ?i = Some ?l"
    by (simp add: tolower_def ctype_domain_char)
  have "(of_char (int_to_char ?l) :: nat) = of_char (lowercase_form c)"
    using of_char_le_255 [of c]
    by (auto simp: of_char_int_to_char lowercase_form_code char_to_int_def EOF_def)
  then have "int_to_char ?l = lowercase_form c"
    by (rule of_char_eqI)
  with def show ?thesis by blast
qed

subsection \<open>Derived facts on characters\<close>

lemma uppercase_form_idem: "uppercase_form (uppercase_form c) = uppercase_form c"
  by (rule of_char_eqI [where ?'a = nat]) (auto simp: uppercase_form_code)

lemma lowercase_form_idem: "lowercase_form (lowercase_form c) = lowercase_form c"
  by (rule of_char_eqI [where ?'a = nat]) (auto simp: lowercase_form_code)

lemma lowercase_uppercase_form: "lowercase_form (uppercase_form c) = lowercase_form c"
  by (rule of_char_eqI [where ?'a = nat]) (auto simp: uppercase_form_code lowercase_form_code)

lemma uppercase_lowercase_form: "uppercase_form (lowercase_form c) = uppercase_form c"
  by (rule of_char_eqI [where ?'a = nat]) (auto simp: uppercase_form_code lowercase_form_code)

lemma is_whitespace_uppercase_form: "is_whitespace (uppercase_form c) \<longleftrightarrow> is_whitespace c"
  by (auto simp: is_whitespace_code uppercase_form_code)

lemma is_whitespace_lowercase_form: "is_whitespace (lowercase_form c) \<longleftrightarrow> is_whitespace c"
  by (auto simp: is_whitespace_code lowercase_form_code)

lemma not_is_lowercase_uppercase_form: "\<not> is_lowercase (uppercase_form c)"
  by (auto simp: is_lowercase_code uppercase_form_code)

lemma not_is_uppercase_lowercase_form: "\<not> is_uppercase (lowercase_form c)"
  by (auto simp: is_uppercase_code lowercase_form_code)

lemma is_uppercase_uppercase_form: "is_alphabetic c \<Longrightarrow> is_uppercase (uppercase_form c)"
  by (auto simp: is_alphabetic_def is_uppercase_code is_lowercase_code uppercase_form_code)

lemma is_lowercase_lowercase_form: "is_alphabetic c \<Longrightarrow> is_lowercase (lowercase_form c)"
  by (auto simp: is_alphabetic_def is_uppercase_code is_lowercase_code lowercase_form_code)

lemma uppercase_form_not_alphabetic: "\<not> is_alphabetic c \<Longrightarrow> uppercase_form c = c"
  by (auto simp: is_alphabetic_def uppercase_form_other)

lemma lowercase_form_not_alphabetic: "\<not> is_alphabetic c \<Longrightarrow> lowercase_form c = c"
  by (auto simp: is_alphabetic_def lowercase_form_other)

lemma is_ascii_uppercase_form: "is_ascii c \<Longrightarrow> is_ascii (uppercase_form c)"
  by (auto simp: is_ascii_def uppercase_form_code)

lemma is_ascii_lowercase_form: "is_ascii c \<Longrightarrow> is_ascii (lowercase_form c)"
  by (auto simp: is_ascii_def lowercase_form_code)

section \<open>The strategies compute the forms of the specification\<close>

lemma UpperCaseFormatter_format_eq:
  "UpperCaseFormatter_format sg s = Some (map uppercase_form s)"
proof (induction s)
  case Nil
  show ?case by simp
next
  case (Cons c cs)
  obtain u where "toupper (char_to_int sg c) = Some u" "int_to_char u = uppercase_form c"
    using toupper_char by blast
  with Cons show ?case by simp
qed

lemma LowerCaseFormatter_format_eq:
  "LowerCaseFormatter_format sg s = Some (map lowercase_form s)"
proof (induction s)
  case Nil
  show ?case by simp
next
  case (Cons c cs)
  obtain l where "tolower (char_to_int sg c) = Some l" "int_to_char l = lowercase_form c"
    using tolower_char by blast
  with Cons show ?case by simp
qed

lemma TitleCaseFormatter_loop_eq:
  "TitleCaseFormatter_loop sg capitalize s = Some (title_chars capitalize s)"
proof (induction s arbitrary: capitalize)
  case Nil
  show ?case by simp
next
  case (Cons c cs)
  obtain u where u: "toupper (char_to_int sg c) = Some u" "int_to_char u = uppercase_form c"
    using toupper_char by blast
  obtain l where l: "tolower (char_to_int sg c) = Some l" "int_to_char l = lowercase_form c"
    using tolower_char by blast
  from u l show ?case
    by (simp add: isspace_char Cons.IH)
qed

lemma TitleCaseFormatter_format_eq:
  "TitleCaseFormatter_format sg s = Some (title_chars True s)"
  by (simp add: TitleCaseFormatter_format_def TitleCaseFormatter_loop_eq)

lemma length_title_chars: "length (title_chars f s) = length s"
  by (induction s arbitrary: f) simp_all

lemma title_chars_nth:
  "i < length s \<Longrightarrow>
   title_chars f s ! i =
     (if is_whitespace (s ! i) then s ! i
      else if (if i = 0 then f else is_whitespace (s ! (i - 1))) then uppercase_form (s ! i)
      else lowercase_form (s ! i))"
proof (induction s arbitrary: f i)
  case Nil
  then show ?case by simp
next
  case (Cons c cs)
  show ?case
  proof (cases i)
    case 0
    then show ?thesis by simp
  next
    case (Suc j)
    with Cons.prems have j: "j < length cs" by simp
    show ?thesis
    proof (cases j)
      case 0
      with Suc j show ?thesis by (simp add: Cons.IH)
    next
      case (Suc k)
      with \<open>i = Suc j\<close> j show ?thesis by (simp add: Cons.IH)
    qed
  qed
qed

lemma title_chars_idem: "title_chars f (title_chars f s) = title_chars f s"
  by (induction s arbitrary: f)
    (simp_all add: is_whitespace_uppercase_form is_whitespace_lowercase_form
       uppercase_form_idem lowercase_form_idem)

lemma snd_foldl_TITLE_step:
  "snd (foldl TITLE_step (f, out) s) = out @ title_chars f s"
  by (induction s arbitrary: f out) (simp_all add: TITLE_step_def)

lemma TITLE_spec_eq: "TITLE_spec s = title_chars True s"
  by (simp add: TITLE_spec_def TITLE_pass_def snd_foldl_TITLE_step)

lemma fst_foldl_TITLE_step_whitespace:
  "list_all is_whitespace ws \<Longrightarrow> fst (foldl TITLE_step (f, out) ws) = (f \<or> ws \<noteq> [])"
  by (induction ws arbitrary: f out) (simp_all add: TITLE_step_def)

section \<open>The claims\<close>

text \<open>
  Claim C4. For every ASCII string \<open>s\<close>, UPPER is defined on \<open>s\<close> and maps every
  alphabetic character of \<open>s\<close> to its uppercase form, passing every non-alphabetic
  character through unchanged; so the result has an uppercase letter wherever \<open>s\<close> has
  a letter, contains no lowercase letter, has the length of \<open>s\<close>, and agrees with \<open>s\<close>
  at every position that holds no letter.
\<close>

theorem UPPER_on_ascii:
  assumes "ascii_string s"
  shows "\<exists>r. UpperCaseFormatter_format sg s = Some r
    \<and> r = map (\<lambda>c. if is_alphabetic c then uppercase_form c else c) s
    \<and> (\<forall>i<length s. is_alphabetic (s ! i) \<longrightarrow> is_uppercase (r ! i))
    \<and> (\<forall>c \<in> set r. \<not> is_lowercase c)
    \<and> length r = length s
    \<and> (\<forall>i<length s. \<not> is_alphabetic (s ! i) \<longrightarrow> r ! i = s ! i)"
proof -
  let ?r = "map uppercase_form s"
  have "UpperCaseFormatter_format sg s = Some ?r"
    by (simp add: UpperCaseFormatter_format_eq)
  moreover have "?r = map (\<lambda>c. if is_alphabetic c then uppercase_form c else c) s"
    by (simp add: uppercase_form_not_alphabetic)
  moreover have "\<forall>i<length s. is_alphabetic (s ! i) \<longrightarrow> is_uppercase (?r ! i)"
    by (simp add: is_uppercase_uppercase_form)
  moreover have "\<forall>c \<in> set ?r. \<not> is_lowercase c"
    by (simp add: not_is_lowercase_uppercase_form)
  moreover have "\<forall>i<length s. \<not> is_alphabetic (s ! i) \<longrightarrow> ?r ! i = s ! i"
    by (simp add: uppercase_form_not_alphabetic)
  ultimately show ?thesis by simp
qed

text \<open>Claim C4 at the ASCII string \<open>Hello, World 42!\<close>.\<close>

theorem UPPER_on_ascii_witness:
  "ascii_string ''Hello, World 42!''
   \<and> UpperCaseFormatter_format True ''Hello, World 42!'' = Some ''HELLO, WORLD 42!''"
proof -
  have h: "ascii_string ''Hello, World 42!''"
    by (simp add: ascii_string_def is_ascii_def)
  have e: "map (\<lambda>c. if is_alphabetic c then uppercase_form c else c) ''Hello, World 42!''
             = ''HELLO, WORLD 42!''"
    by code_simp
  from UPPER_on_ascii [OF h, of True] e h show ?thesis by simp
qed

text \<open>
  Claim C5. For every ASCII string \<open>s\<close>, LOWER is defined on \<open>s\<close> and maps every
  alphabetic character of \<open>s\<close> to its lowercase form, passing every non-alphabetic
  character through unchanged; so the result has a lowercase letter wherever \<open>s\<close> has
  a letter, contains no uppercase letter, has the length of \<open>s\<close>, and agrees with \<open>s\<close>
  at every position that holds no letter.
\<close>

theorem LOWER_on_ascii:
  assumes "ascii_string s"
  shows "\<exists>r. LowerCaseFormatter_format sg s = Some r
    \<and> r = map (\<lambda>c. if is_alphabetic c then lowercase_form c else c) s
    \<and> (\<forall>i<length s. is_alphabetic (s ! i) \<longrightarrow> is_lowercase (r ! i))
    \<and> (\<forall>c \<in> set r. \<not> is_uppercase c)
    \<and> length r = length s
    \<and> (\<forall>i<length s. \<not> is_alphabetic (s ! i) \<longrightarrow> r ! i = s ! i)"
proof -
  let ?r = "map lowercase_form s"
  have "LowerCaseFormatter_format sg s = Some ?r"
    by (simp add: LowerCaseFormatter_format_eq)
  moreover have "?r = map (\<lambda>c. if is_alphabetic c then lowercase_form c else c) s"
    by (simp add: lowercase_form_not_alphabetic)
  moreover have "\<forall>i<length s. is_alphabetic (s ! i) \<longrightarrow> is_lowercase (?r ! i)"
    by (simp add: is_lowercase_lowercase_form)
  moreover have "\<forall>c \<in> set ?r. \<not> is_uppercase c"
    by (simp add: not_is_uppercase_lowercase_form)
  moreover have "\<forall>i<length s. \<not> is_alphabetic (s ! i) \<longrightarrow> ?r ! i = s ! i"
    by (simp add: lowercase_form_not_alphabetic)
  ultimately show ?thesis by simp
qed

text \<open>Claim C5 at the ASCII string \<open>Hello, World 42!\<close>.\<close>

theorem LOWER_on_ascii_witness:
  "ascii_string ''Hello, World 42!''
   \<and> LowerCaseFormatter_format True ''Hello, World 42!'' = Some ''hello, world 42!''"
proof -
  have h: "ascii_string ''Hello, World 42!''"
    by (simp add: ascii_string_def is_ascii_def)
  have e: "map (\<lambda>c. if is_alphabetic c then lowercase_form c else c) ''Hello, World 42!''
             = ''hello, world 42!''"
    by code_simp
  from LOWER_on_ascii [OF h, of True] e h show ?thesis by simp
qed

text \<open>
  What TITLE writes at each position: whitespace stays, a character at the first
  position or after whitespace gets its uppercase form, every other character its
  lowercase form.
\<close>

lemma TitleCaseFormatter_format_nth:
  "\<exists>r. TitleCaseFormatter_format sg s = Some r \<and> length r = length s \<and>
     (\<forall>i<length s. r ! i =
        (if is_whitespace (s ! i) then s ! i
         else if i = 0 \<or> is_whitespace (s ! (i - 1)) then uppercase_form (s ! i)
         else lowercase_form (s ! i)))"
  by (simp add: TitleCaseFormatter_format_eq length_title_chars title_chars_nth)

text \<open>
  Claim C1, as stated, fails. In \<open>(hello world)\<close> the first run starts with a
  parenthesis, and its first letter \<open>h\<close> follows that non-letter: the claim has it
  capitalized, giving \<open>(Hello World)\<close>, while the program clears its flag at the
  parenthesis and lowercases \<open>h\<close>, giving \<open>(hello World)\<close>, whether \<open>char\<close> is signed
  or not.
\<close>

theorem TITLE_first_letter_counterexample:
  "TitleCaseFormatter_format True ''(hello world)'' = Some ''(hello World)''
   \<and> TitleCaseFormatter_format False ''(hello world)'' = Some ''(hello World)''
   \<and> TITLE_first_letter ''(hello world)'' = ''(Hello World)''
   \<and> TitleCaseFormatter_format True ''(hello world)'' \<noteq> Some (TITLE_first_letter ''(hello world)'')
   \<and> TitleCaseFormatter_format False ''(hello world)'' \<noteq> Some (TITLE_first_letter ''(hello world)'')"
  by code_simp

text \<open>
  Claim C1, amended. For every string \<open>s\<close>, TITLE has a result on \<open>s\<close>, in which the
  first \<^emph>\<open>character\<close> of each maximal run of non-whitespace characters is replaced by its
  uppercase form and every other character of the run by its lowercase form, and every
  whitespace character is kept where it was; so a letter is capitalized exactly when it
  is the first character of its run.
\<close>

theorem TITLE_first_character:
  "\<exists>r. TitleCaseFormatter_format sg s = Some r \<and> length r = length s \<and>
     (\<forall>i<length s. r ! i =
        (if is_whitespace (s ! i) then s ! i
         else if starts_run s i then uppercase_form (s ! i)
         else lowercase_form (s ! i)))"
proof -
  from TitleCaseFormatter_format_nth [of sg s] obtain r where
    r: "TitleCaseFormatter_format sg s = Some r" "length r = length s"
    and nth: "\<forall>i<length s. r ! i =
        (if is_whitespace (s ! i) then s ! i
         else if i = 0 \<or> is_whitespace (s ! (i - 1)) then uppercase_form (s ! i)
         else lowercase_form (s ! i))"
    by blast
  from nth have "\<forall>i<length s. r ! i =
        (if is_whitespace (s ! i) then s ! i
         else if starts_run s i then uppercase_form (s ! i)
         else lowercase_form (s ! i))"
    by (simp add: starts_run_def)
  with r show ?thesis by blast
qed

text \<open>
  Claim C1, amended, at the scenario of the specification: in
  \<open>" multiple   spaces "\<close> the space runs stay and the two words are capitalized.
\<close>

theorem TITLE_first_character_witness:
  "\<exists>r. TitleCaseFormatter_format True '' multiple   spaces '' = Some r
        \<and> length r = 19 \<and> r ! 0 = CHR '' '' \<and> r ! 1 = CHR ''M'' \<and> r ! 2 = CHR ''u''
        \<and> r ! 10 = CHR '' '' \<and> r ! 12 = CHR ''S'' \<and> r ! 13 = CHR ''p''"
proof -
  let ?s = "'' multiple   spaces ''"
  let ?out = "\<lambda>i. if is_whitespace (?s ! i) then ?s ! i
         else if starts_run ?s i then uppercase_form (?s ! i)
         else lowercase_form (?s ! i)"
  have v: "?out 0 = CHR '' ''" "?out 1 = CHR ''M''" "?out 2 = CHR ''u''"
    "?out 10 = CHR '' ''" "?out 12 = CHR ''S''" "?out 13 = CHR ''p''"
    by code_simp+
  from TITLE_first_character [of True ?s] obtain r where
    r: "TitleCaseFormatter_format True ?s = Some r" "length r = length ?s"
    and nth: "\<And>i. i < length ?s \<Longrightarrow> r ! i = ?out i"
    by blast
  have "r ! 0 = ?out 0" "r ! 1 = ?out 1" "r ! 2 = ?out 2"
    "r ! 10 = ?out 10" "r ! 12 = ?out 12" "r ! 13 = ?out 13"
    by (rule nth, simp)+
  with v r show ?thesis by simp
qed

text \<open>
  Claim C9. For every string \<open>s\<close>, TITLE has a result on \<open>s\<close>, which has the length
  of \<open>s\<close>, and a position holds a whitespace character in the result if and only if it
  holds one in \<open>s\<close>.
\<close>

theorem TITLE_preserves_structure:
  "\<exists>r. TitleCaseFormatter_format sg s = Some r \<and> length r = length s \<and>
     (\<forall>i<length s. is_whitespace (r ! i) \<longleftrightarrow> is_whitespace (s ! i))"
proof -
  from TitleCaseFormatter_format_nth [of sg s] obtain r where
    r: "TitleCaseFormatter_format sg s = Some r" "length r = length s"
    and nth: "\<forall>i<length s. r ! i =
        (if is_whitespace (s ! i) then s ! i
         else if i = 0 \<or> is_whitespace (s ! (i - 1)) then uppercase_form (s ! i)
         else lowercase_form (s ! i))"
    by blast
  from nth have "\<forall>i<length s. is_whitespace (r ! i) \<longleftrightarrow> is_whitespace (s ! i)"
    by (simp add: is_whitespace_uppercase_form is_whitespace_lowercase_form)
  with r show ?thesis by blast
qed

text \<open>
  Claim C9 at a text with a byte above 127 and a signed \<open>char\<close>: \<open>a caf\<close>, the byte
  \<open>0xE9\<close>, two spaces and \<open>x\<close>, nine characters with whitespace at 1, 6 and 7.
\<close>

theorem TITLE_preserves_structure_witness:
  "\<exists>r. TitleCaseFormatter_format True (''a caf'' @ [CHR 0xE9] @ ''  x'') = Some r
        \<and> length r = 9
        \<and> is_whitespace (r ! 1) \<and> \<not> is_whitespace (r ! 5) \<and> is_whitespace (r ! 6)
        \<and> is_whitespace (r ! 7) \<and> \<not> is_whitespace (r ! 8)"
proof -
  let ?s = "''a caf'' @ [CHR 0xE9] @ ''  x''"
  have w: "is_whitespace (?s ! 1)" "\<not> is_whitespace (?s ! 5)" "is_whitespace (?s ! 6)"
    "is_whitespace (?s ! 7)" "\<not> is_whitespace (?s ! 8)"
    by code_simp+
  from TITLE_preserves_structure [of True ?s] obtain r where
    r: "TitleCaseFormatter_format True ?s = Some r" "length r = length ?s"
    and nth: "\<And>i. i < length ?s \<Longrightarrow> is_whitespace (r ! i) \<longleftrightarrow> is_whitespace (?s ! i)"
    by blast
  have "is_whitespace (r ! 1) \<longleftrightarrow> is_whitespace (?s ! 1)"
    "is_whitespace (r ! 5) \<longleftrightarrow> is_whitespace (?s ! 5)"
    "is_whitespace (r ! 6) \<longleftrightarrow> is_whitespace (?s ! 6)"
    "is_whitespace (r ! 7) \<longleftrightarrow> is_whitespace (?s ! 7)"
    "is_whitespace (r ! 8) \<longleftrightarrow> is_whitespace (?s ! 8)"
    by (rule nth, simp)+
  with w r show ?thesis by simp
qed

text \<open>
  Claim C6. For every string, the result of \<open>TitleCaseFormatter::format\<close> is the output
  of the single left-to-right pass of the specification, with its flag "at word start"
  initially true. A text of whitespace only leaves the flag true, so after leading
  whitespace the first non-whitespace character is written in its uppercase form; the
  empty text gives the empty text; a word of one character is uppercased.
\<close>

theorem TITLE_single_pass:
  "TitleCaseFormatter_format sg s = Some (TITLE_spec s)
   \<and> (list_all is_whitespace ws \<longrightarrow> fst (TITLE_pass ws) = True)
   \<and> (list_all is_whitespace ws \<and> \<not> is_whitespace c \<longrightarrow>
        (\<exists>r. TitleCaseFormatter_format sg (ws @ c # cs) = Some (ws @ uppercase_form c # r)))
   \<and> TitleCaseFormatter_format sg [] = Some []
   \<and> (\<not> is_whitespace c \<longrightarrow> TitleCaseFormatter_format sg [c] = Some [uppercase_form c])"
proof -
  have pass: "TitleCaseFormatter_format sg s = Some (TITLE_spec s)"
    by (simp add: TitleCaseFormatter_format_eq TITLE_spec_eq)
  have flag: "list_all is_whitespace ws \<longrightarrow> fst (TITLE_pass ws) = True"
    by (simp add: TITLE_pass_def fst_foldl_TITLE_step_whitespace)
  have lead: "f \<or> ws \<noteq> [] \<Longrightarrow> list_all is_whitespace ws \<Longrightarrow> \<not> is_whitespace c \<Longrightarrow>
      title_chars f (ws @ c # cs) = ws @ uppercase_form c # title_chars False cs" for f
    by (induction ws arbitrary: f) simp_all
  have first: "list_all is_whitespace ws \<and> \<not> is_whitespace c \<longrightarrow>
        (\<exists>r. TitleCaseFormatter_format sg (ws @ c # cs) = Some (ws @ uppercase_form c # r))"
    by (simp add: TitleCaseFormatter_format_eq lead)
  have empty: "TitleCaseFormatter_format sg [] = Some []"
    by (simp add: TitleCaseFormatter_format_def)
  have single: "\<not> is_whitespace c \<longrightarrow>
        TitleCaseFormatter_format sg [c] = Some [uppercase_form c]"
    by (simp add: TitleCaseFormatter_format_eq)
  from pass flag first empty single show ?thesis by blast
qed

text \<open>Claim C6 at \<open>"  hello wORLD"\<close> and at the one-character word \<open>h\<close>.\<close>

theorem TITLE_single_pass_witness:
  "TitleCaseFormatter_format True ''  hello wORLD'' = Some ''  Hello World''
   \<and> list_all is_whitespace ''  ''
   \<and> fst (TITLE_pass ''  '') = True
   \<and> \<not> is_whitespace (CHR ''h'')
   \<and> (\<exists>r. TitleCaseFormatter_format True ''  hello wORLD'' = Some (''  H'' @ r))
   \<and> TitleCaseFormatter_format True ''h'' = Some ''H''"
proof -
  have h: "list_all is_whitespace ''  ''" "\<not> is_whitespace (CHR ''h'')"
    by code_simp+
  have e: "TITLE_spec ''  hello wORLD'' = ''  Hello World''" "uppercase_form (CHR ''h'') = CHR ''H''"
    by code_simp+
  from TITLE_single_pass [of True "''  hello wORLD''" "''  ''" "CHR ''h''" "''ello wORLD''"] h e
  show ?thesis by simp
qed

text \<open>
  Claim C7. Each of the three transformations is idempotent: for every string \<open>s\<close> it
  has a result, and applied to that result it returns the result again.
\<close>

theorem formatters_idempotent:
  "(\<exists>u. UpperCaseFormatter_format sg s = Some u \<and> UpperCaseFormatter_format sg u = Some u)
   \<and> (\<exists>l. LowerCaseFormatter_format sg s = Some l \<and> LowerCaseFormatter_format sg l = Some l)
   \<and> (\<exists>t. TitleCaseFormatter_format sg s = Some t \<and> TitleCaseFormatter_format sg t = Some t)"
  by (simp add: UpperCaseFormatter_format_eq LowerCaseFormatter_format_eq
      TitleCaseFormatter_format_eq uppercase_form_idem lowercase_form_idem title_chars_idem)

text \<open>
  Claim C7 at \<open>hELLO caf\<close> followed by the byte \<open>0xE9\<close>, with a signed \<open>char\<close>.
\<close>

theorem formatters_idempotent_witness:
  "UpperCaseFormatter_format True (''hELLO caf'' @ [CHR 0xE9]) = Some (''HELLO CAF'' @ [CHR 0xE9])
   \<and> UpperCaseFormatter_format True (''HELLO CAF'' @ [CHR 0xE9]) = Some (''HELLO CAF'' @ [CHR 0xE9])
   \<and> LowerCaseFormatter_format True (''hELLO caf'' @ [CHR 0xE9]) = Some (''hello caf'' @ [CHR 0xE9])
   \<and> LowerCaseFormatter_format True (''hello caf'' @ [CHR 0xE9]) = Some (''hello caf'' @ [CHR 0xE9])
   \<and> TitleCaseFormatter_format True (''hELLO caf'' @ [CHR 0xE9]) = Some (''Hello Caf'' @ [CHR 0xE9])
   \<and> TitleCaseFormatter_format True (''Hello Caf'' @ [CHR 0xE9]) = Some (''Hello Caf'' @ [CHR 0xE9])"
proof -
  have e: "UpperCaseFormatter_format True (''hELLO caf'' @ [CHR 0xE9]) = Some (''HELLO CAF'' @ [CHR 0xE9])"
    "LowerCaseFormatter_format True (''hELLO caf'' @ [CHR 0xE9]) = Some (''hello caf'' @ [CHR 0xE9])"
    "TitleCaseFormatter_format True (''hELLO caf'' @ [CHR 0xE9]) = Some (''Hello Caf'' @ [CHR 0xE9])"
    by code_simp+
  from formatters_idempotent [of True "''hELLO caf'' @ [CHR 0xE9]"] e
  show ?thesis by simp
qed

text \<open>
  Claim C8. The three transformations are total and deterministic over any character
  sequence: for every string of any byte values, also the empty one, and whether
  \<open>char\<close> is signed or not, each has a result; equal inputs give equal results, and
  the result does not depend on the signedness of \<open>char\<close>. The transformations are
  functions of the text alone, so they have no side effect.
\<close>

theorem formatters_total:
  "(\<exists>u. UpperCaseFormatter_format sg s = Some u)
   \<and> (\<exists>l. LowerCaseFormatter_format sg s = Some l)
   \<and> (\<exists>t. TitleCaseFormatter_format sg s = Some t)
   \<and> UpperCaseFormatter_format sg [] = Some []
   \<and> LowerCaseFormatter_format sg [] = Some []
   \<and> TitleCaseFormatter_format sg [] = Some []
   \<and> (s = s' \<longrightarrow>
        UpperCaseFormatter_format sg s = UpperCaseFormatter_format sg s'
        \<and> LowerCaseFormatter_format sg s = LowerCaseFormatter_format sg s'
        \<and> TitleCaseFormatter_format sg s = TitleCaseFormatter_format sg s')
   \<and> UpperCaseFormatter_format True s = UpperCaseFormatter_format False s
   \<and> LowerCaseFormatter_format True s = LowerCaseFormatter_format False s
   \<and> TitleCaseFormatter_format True s = TitleCaseFormatter_format False s"
  by (simp add: UpperCaseFormatter_format_eq LowerCaseFormatter_format_eq
      TitleCaseFormatter_format_eq)

text \<open>
  Claim C8 at \<open>caf\<close> followed by the byte \<open>0xE9\<close> with a signed \<open>char\<close>, where the
  library functions receive -23: the results are \<open>CAF\<close>, \<open>caf\<close> and \<open>Caf\<close>, each
  followed by the byte unchanged.
\<close>

theorem formatters_total_witness:
  "UpperCaseFormatter_format True (''caf'' @ [CHR 0xE9]) = Some (''CAF'' @ [CHR 0xE9])
   \<and> LowerCaseFormatter_format True (''caf'' @ [CHR 0xE9]) = Some (''caf'' @ [CHR 0xE9])
   \<and> TitleCaseFormatter_format True (''caf'' @ [CHR 0xE9]) = Some (''Caf'' @ [CHR 0xE9])
   \<and> UpperCaseFormatter_format False (''caf'' @ [CHR 0xE9]) = Some (''CAF'' @ [CHR 0xE9])
   \<and> char_to_int True (CHR 0xE9) = - 23
   \<and> toupper (- 23) = Some 233"
proof -
  have e: "UpperCaseFormatter_format True (''caf'' @ [CHR 0xE9]) = Some (''CAF'' @ [CHR 0xE9])"
    "LowerCaseFormatter_format True (''caf'' @ [CHR 0xE9]) = Some (''caf'' @ [CHR 0xE9])"
    "TitleCaseFormatter_format True (''caf'' @ [CHR 0xE9]) = Some (''Caf'' @ [CHR 0xE9])"
    "char_to_int True (CHR 0xE9) = - 23" "toupper (- 23) = Some 233"
    by code_simp+
  from formatters_total [of True "''caf'' @ [CHR 0xE9]" "''caf'' @ [CHR 0xE9]"] e
  show ?thesis by simp
qed

text \<open>
  Claim C3. With no transformation active, \<open>TextProcessor::format\<close> returns the text
  unchanged, for every text and so for the empty one; with a transformation \<open>t\<close> active
  it returns exactly the result of \<open>t\<close> on the text. In both cases, for every text, the
  call has a result.
\<close>

theorem TextProcessor_format_result:
  "(formatter p = None \<longrightarrow> fst (TextProcessor_format sg p text) = Some text)
   \<and> (formatter p = Some t \<longrightarrow>
        fst (TextProcessor_format sg p text) = ITextFormatter_format sg t text)
   \<and> fst (TextProcessor_format sg p text) \<noteq> None
   \<and> fst (TextProcessor_format sg TextProcessor_init []) = Some []"
proof -
  have "ITextFormatter_format sg f text \<noteq> None" for f
    by (cases f) (simp_all add: UpperCaseFormatter_format_eq LowerCaseFormatter_format_eq
        TitleCaseFormatter_format_eq)
  then show ?thesis
    by (auto simp: TextProcessor_format_def TextProcessor_init_def split: option.splits)
qed

text \<open>
  Claim C3 at a processor as constructed and at one with the uppercase strategy
  installed, on a text with a byte above 127 and a signed \<open>char\<close>.
\<close>

theorem TextProcessor_format_result_witness:
  "formatter TextProcessor_init = None
   \<and> fst (TextProcessor_format True TextProcessor_init (''caf'' @ [CHR 0xE9]))
       = Some (''caf'' @ [CHR 0xE9])
   \<and> formatter (setFormatter (Some UpperCaseFormatter) TextProcessor_init) = Some UpperCaseFormatter
   \<and> fst (TextProcessor_format True (setFormatter (Some UpperCaseFormatter) TextProcessor_init)
        (''caf'' @ [CHR 0xE9])) = Some (''CAF'' @ [CHR 0xE9])"
proof -
  have h: "formatter TextProcessor_init = None"
    "formatter (setFormatter (Some UpperCaseFormatter) TextProcessor_init) = Some UpperCaseFormatter"
    by (simp_all add: TextProcessor_init_def setFormatter_def)
  have e: "ITextFormatter_format True UpperCaseFormatter (''caf'' @ [CHR 0xE9])
             = Some (''CAF'' @ [CHR 0xE9])"
    by code_simp
  from TextProcessor_format_result [of TextProcessor_init True "''caf'' @ [CHR 0xE9]"]
    TextProcessor_format_result [of "setFormatter (Some UpperCaseFormatter) TextProcessor_init"
      True "''caf'' @ [CHR 0xE9]" UpperCaseFormatter] h e
  show ?thesis by simp
qed

text \<open>
  Claim C10. \<open>TextProcessor::format\<close> leaves the processor as it was, in particular
  the member \<open>formatter\<close>, for every processor and every text; so a second call on the
  same text returns what the first returned.
\<close>

theorem TextProcessor_format_read_only:
  "snd (TextProcessor_format sg p text) = p
   \<and> formatter (snd (TextProcessor_format sg p text)) = formatter p
   \<and> fst (TextProcessor_format sg (snd (TextProcessor_format sg p text)) text)
       = fst (TextProcessor_format sg p text)"
  by (simp add: TextProcessor_format_def split: option.splits)

text \<open>
  Claim C2. The \<open>switch\<close> of \<open>main\<close> installs the uppercase strategy for the
  selector 1, the lowercase strategy for 2 and the title-case strategy for 3, and the run
  prints the result of that strategy on the input. For any other integer it installs
  nothing, the processor stays without a strategy, the notice
  \<open>Invalid choice. Using default (no formatting).\<close> is printed, and then the input is
  printed unchanged as the result; the exit code is 0.
\<close>

theorem main_selector_mapping:
  "main_switch 1 TextProcessor_init = (\<lparr>formatter = Some UpperCaseFormatter\<rparr>, [])
   \<and> main_switch 2 TextProcessor_init = (\<lparr>formatter = Some LowerCaseFormatter\<rparr>, [])
   \<and> main_switch 3 TextProcessor_init = (\<lparr>formatter = Some TitleCaseFormatter\<rparr>, [])
   \<and> main sg input 1 = map_option (report []) (UpperCaseFormatter_format sg input)
   \<and> main sg input 2 = map_option (report []) (LowerCaseFormatter_format sg input)
   \<and> main sg input 3 = map_option (report []) (TitleCaseFormatter_format sg input)
   \<and> (choice \<noteq> 1 \<and> choice \<noteq> 2 \<and> choice \<noteq> 3 \<longrightarrow>
        main_switch choice TextProcessor_init =
          (\<lparr>formatter = None\<rparr>, ''Invalid choice. Using default (no formatting).'' @ [newline])
        \<and> main sg input choice =
          Some (prompts @ ''Invalid choice. Using default (no formatting).'' @ [newline]
                @ [newline] @ ''Formatted output:'' @ [newline] @ input @ [newline], 0))"
  by (cases "UpperCaseFormatter_format sg input"; cases "LowerCaseFormatter_format sg input";
      cases "TitleCaseFormatter_format sg input")
    (simp_all add: main_def main_switch_def TextProcessor_init_def setFormatter_def
      TextProcessor_format_def report_def)

text \<open>Claim C2 at the selector 4 and the input \<open>Hello World\<close>.\<close>

theorem main_selector_mapping_witness:
  "(4::int) \<noteq> 1 \<and> (4::int) \<noteq> 2 \<and> (4::int) \<noteq> 3
   \<and> main_switch 4 TextProcessor_init =
        (\<lparr>formatter = None\<rparr>, ''Invalid choice. Using default (no formatting).'' @ [newline])
   \<and> main True ''Hello World'' 4 =
        Some (prompts @ ''Invalid choice. Using default (no formatting).'' @ [newline]
              @ [newline] @ ''Formatted output:'' @ [newline] @ ''Hello World'' @ [newline], 0)"
  using main_selector_mapping [where choice = 4 and sg = True and input = "''Hello World''"]
  by simp

end
